theory Spec2Isabelle
  imports Main "HOL-Library.Sublist" "HOL-Library.List_Lexorder" "HOL-Library.Char_ord"
begin

section \<open>depstubber: the command-line driver and the stub file generator\<close>

text \<open>
  A shallow embedding of \<^verbatim>\<open>depstubber.go\<close>: \<^verbatim>\<open>main\<close>, \<^verbatim>\<open>createStubs\<close> and the
  \<^verbatim>\<open>generator\<close> with its methods \<^verbatim>\<open>p\<close>, \<^verbatim>\<open>Generate\<close> and \<^verbatim>\<open>Output\<close>.

  The program is a sequence of effects on the file system and on standard output,
  cut short by \<^verbatim>\<open>log.Fatalf\<close> and \<^verbatim>\<open>panic\<close>. The model passes a \<open>world\<close> through
  every step and returns, next to the new world, either the abort or the value.
  Helpers of the repository that are called but not defined in \<^verbatim>\<open>depstubber.go\<close>
  (\<^verbatim>\<open>autoDetect\<close>, \<^verbatim>\<open>reflectMode\<close>, \<^verbatim>\<open>DeduplicateStrings\<close>, \<^verbatim>\<open>split\<close>, \<^verbatim>\<open>findModuleRoot\<close>,
  \<^verbatim>\<open>DirExists\<close>, \<^verbatim>\<open>packageNameOfDir\<close>, \<^verbatim>\<open>copyLicenses\<close>, \<^verbatim>\<open>stubModulesTxt\<close>,
  \<^verbatim>\<open>printGoGenerateComments\<close>) and the calls into Go's libraries whose result the
  program branches on are fields of the record \<open>env\<close>: the theorems hold for every
  such environment, or state the contract they need as a hypothesis.
\<close>

subsection \<open>Strings\<close>

abbreviation NL :: char where
  "NL \<equiv> CHR 0x0A"

text \<open>\<^verbatim>\<open>strings.Join(elems, sep)\<close>.\<close>

fun Join :: "string list \<Rightarrow> string \<Rightarrow> string" where
  "Join [] sep = []"
| "Join [x] sep = x"
| "Join (x # y # ys) sep = x @ sep @ Join (y # ys) sep"

text \<open>
  \<^verbatim>\<open>strings.Split(s, sep)\<close> for a separator of one byte, the only use in the source
  (line 217, \<^verbatim>\<open>"\n"\<close>): the pieces between the separators, the empty ones included.
\<close>

fun Split :: "string \<Rightarrow> char \<Rightarrow> string list" where
  "Split [] sep = [[]]"
| "Split (c # cs) sep =
     (if c = sep then [] # Split cs sep
      else (case Split cs sep of
              [] \<Rightarrow> [[c]]
            | l # ls \<Rightarrow> (c # l) # ls))"

text \<open>
  \<^verbatim>\<open>fmt.Fprintf(w, format, a...)\<close> on string arguments. The bytes of the format are
  copied up to a \<^verbatim>\<open>%\<close>; the verb \<^verbatim>\<open>%s\<close> with an operand left prints that operand as
  it is (the fast path of \<^verbatim>\<open>doPrintf\<close>). Everything else (another verb, flags, a
  width, an argument index, a missing or a surplus operand) is the library's
  business: \<open>other\<close> stands for what \<^verbatim>\<open>fmt\<close> prints from there on, given the rest of
  the format, all operands and the number of operands used so far.
\<close>

type_synonym fmt_other = "string \<Rightarrow> string list \<Rightarrow> nat \<Rightarrow> string"

fun doPrintf :: "fmt_other \<Rightarrow> string list \<Rightarrow> nat \<Rightarrow> string \<Rightarrow> string" where
  "doPrintf other a argNum [] = (if argNum < length a then other [] a argNum else [])"
| "doPrintf other a argNum (c # cs) =
     (if c \<noteq> CHR ''%'' then c # doPrintf other a argNum cs
      else (case cs of
              [] \<Rightarrow> other (c # cs) a argNum
            | v # cs' \<Rightarrow>
                if v = CHR ''s'' \<and> argNum < length a
                then (a ! argNum) @ doPrintf other a (Suc argNum) cs'
                else other (c # cs) a argNum))"

definition Sprintf :: "fmt_other \<Rightarrow> string \<Rightarrow> string list \<Rightarrow> string" where
  "Sprintf other format a = doPrintf other a 0 format"

subsection \<open>Go maps\<close>

text \<open>
  A \<^verbatim>\<open>map[string][]string\<close> is an association list: the order of the list is the
  order in which \<^verbatim>\<open>range\<close> visits the keys in this run (Go leaves it unspecified),
  and indexing with an absent key gives the nil slice.
\<close>

type_synonym gomap = "(string \<times> string list) list"

definition keys :: "gomap \<Rightarrow> string list" where
  "keys m = map fst m"

definition index :: "gomap \<Rightarrow> string \<Rightarrow> string list" where
  "index m k = (case map_of m k of None \<Rightarrow> [] | Some v \<Rightarrow> v)"

subsection \<open>The world, the environment and the outcome of a run\<close>

datatype abort = Fatal string | Panic string

datatype dest = Stdout | File string

text \<open>
  The calls that the claims speak about are logged in the order in which they are
  made. \<open>EvCreateStubs\<close> is a call of \<^verbatim>\<open>createStubs\<close> with its four arguments.
\<close>

datatype event =
    EvStubModulesTxt
  | EvAutoDetect
  | EvPrintGoGenerateComments gomap gomap
  | EvUsage
  | EvRemoveAll string
  | EvCreateStubs string "string list" "string list" "string list"
  | EvReflectMode string "string list" "string list"
  | EvMkdirAll string
  | EvCreate string
  | EvProcess string
  | EvWrite dest string
  | EvCopyLicenses "string list"

text \<open>
  The world: the contents of the files, what has been written to standard output, the
  variable behind the flag \<^verbatim>\<open>-destination\<close> (\<^verbatim>\<open>createStubs\<close> assigns to it, line 135), and
  the log.
\<close>

record world =
  files :: "string \<Rightarrow> string option"
  stdout :: string
  destination :: string
  trace :: "event list"

text \<open>\<^verbatim>\<open>model.PackedPkg\<close>: \<^verbatim>\<open>depstubber.go\<close> reads its field \<^verbatim>\<open>Body\<close> only (line 232).\<close>

record PackedPkg =
  Body :: string

text \<open>
  The flags other than \<^verbatim>\<open>-destination\<close>, the arguments left after the flags, and what
  the calls out of \<^verbatim>\<open>depstubber.go\<close> return: an error is its text (\<open>Inl\<close> in a sum, \<open>Some\<close>
  where only an error is returned). \<open>fmt_rest\<close> is the part of \<^verbatim>\<open>fmt\<close> that \<open>doPrintf\<close>
  leaves to the library.
\<close>

record env =
  vendor :: bool
  copyrightFile :: string
  writeModuleTxt :: bool
  forceOverwrite :: bool
  modeAutoDetection :: bool
  modePrintGoGenComments :: bool
  Args :: "string list"
  Getwd :: "string + string"
  filepath_Join :: "string list \<Rightarrow> string"
  filepath_Dir :: "string \<Rightarrow> string"
  MkdirAll :: "string \<Rightarrow> string option"
  Create :: "string \<Rightarrow> string option"
  Write :: "dest \<Rightarrow> string \<Rightarrow> string option"
  ReadFile_error :: "string \<Rightarrow> string"
  Process :: "string \<Rightarrow> string + string"
  fmt_rest :: fmt_other
  findModuleRoot :: "string \<Rightarrow> string"
  DirExists :: "string \<Rightarrow> string + bool"
  autoDetect :: "string + gomap \<times> gomap \<times> gomap"
  DeduplicateStrings :: "string list \<Rightarrow> string list"
  packageNameOfDir :: "string \<Rightarrow> string + string"
  reflectMode :: "string \<Rightarrow> string list \<Rightarrow> string list \<Rightarrow> string + PackedPkg"
  split :: "string \<Rightarrow> string list"
  copyLicenses :: "string list \<Rightarrow> string option"

type_synonym 'a result = "(abort + 'a) \<times> world"

definition emit :: "event \<Rightarrow> world \<Rightarrow> world" where
  "emit e w = w\<lparr>trace := trace w @ [e]\<rparr>"

text \<open>\<^verbatim>\<open>flag.Arg(i)\<close>: the i-th remaining argument, the empty string when there is none.\<close>

definition Arg :: "env \<Rightarrow> nat \<Rightarrow> string" where
  "Arg env i = (if i < length (Args env) then Args env ! i else [])"

text \<open>
  The file system is a map from paths to contents. A path lies under a directory
  when it is the directory or continues it after a slash.
\<close>

definition lies_under :: "string \<Rightarrow> string \<Rightarrow> bool" where
  "lies_under dir path = (path = dir \<or> prefix (dir @ ''/'') path)"

text \<open>
  \<^verbatim>\<open>os.RemoveAll(path)\<close> removes the path and everything under it. The source drops
  the error it returns (line 63); the model is the removal that succeeds.
\<close>

definition RemoveAll :: "string \<Rightarrow> world \<Rightarrow> world" where
  "RemoveAll dir w =
     emit (EvRemoveAll dir) (w\<lparr>files := (\<lambda>path. if lies_under dir path then None else files w path)\<rparr>)"

text \<open>\<^verbatim>\<open>ioutil.ReadFile(name)\<close>.\<close>

definition ReadFile :: "env \<Rightarrow> string \<Rightarrow> world \<Rightarrow> string + string" where
  "ReadFile env name w =
     (case files w name of None \<Rightarrow> Inl (ReadFile_error env name) | Some content \<Rightarrow> Inr content)"

text \<open>\<^verbatim>\<open>dst.Write(b)\<close> that succeeds: the bytes go to the end of the file or of standard output.\<close>

definition written :: "dest \<Rightarrow> string \<Rightarrow> world \<Rightarrow> world" where
  "written dst b w =
     (case dst of
        Stdout \<Rightarrow> w\<lparr>stdout := stdout w @ b\<rparr>
      | File name \<Rightarrow>
          w\<lparr>files := (files w)(name \<mapsto> (case files w name of None \<Rightarrow> [] | Some old \<Rightarrow> old) @ b)\<rparr>)"

subsection \<open>The generator (lines 195 to 245)\<close>

record generator =
  buf :: string
  srcPackage :: string
  srcExports :: string
  srcFunctions :: string
  copyrightHeader :: string
  packageMap :: "(string \<times> string) list"

text \<open>\<^verbatim>\<open>new(generator)\<close>: every field at its zero value.\<close>

definition new_generator :: generator where
  "new_generator =
     \<lparr>buf = [], srcPackage = [], srcExports = [], srcFunctions = [],
      copyrightHeader = [], packageMap = []\<rparr>"

text \<open>\<^verbatim>\<open>g.p(format, args...)\<close>: the newline is appended to the format, then the whole is formatted.\<close>

definition p :: "fmt_other \<Rightarrow> generator \<Rightarrow> string \<Rightarrow> string list \<Rightarrow> generator" where
  "p other g format args = g\<lparr>buf := buf g @ Sprintf other (format @ [NL]) args\<rparr>"

text \<open>
  \<^verbatim>\<open>g.Generate(pkg)\<close>. The second component is the error returned, \<open>None\<close> for \<^verbatim>\<open>nil\<close>:
  the function has one \<^verbatim>\<open>return\<close>, and it returns \<^verbatim>\<open>nil\<close>.
\<close>

definition Generate :: "fmt_other \<Rightarrow> generator \<Rightarrow> PackedPkg \<Rightarrow> generator \<times> string option" where
  "Generate other g0 pkg =
     (let g = p other g0 ''// Code generated by depstubber. DO NOT EDIT.'' [];
          g = p other g ''// This is a simple stub for %s, strictly for use in testing.'' [srcPackage g];
          g = p other g [] [];
          g = (if copyrightHeader g \<noteq> [] then
                 (let g = p other g ''// See the license below for information about the licensing of the original library.'' [];
                      g = p other g [] [];
                      lines = Split (copyrightHeader g) NL;
                      g = foldl (\<lambda>g line. p other g ''// %s'' [line]) g lines
                  in p other g [] [])
               else
                 p other g ''// See the LICENSE file for information about the licensing of the original library.'' []);
          g = p other g ''// Source: %s (exports: %s; functions: %s)'' [srcPackage g, srcExports g, srcFunctions g];
          g = p other g [] [];
          g = p other g [] [];
          g = p other g (Body pkg) []
      in (g, None))"

text \<open>
  \<^verbatim>\<open>g.Output()\<close>: \<^verbatim>\<open>imports.Process\<close> formats the buffer; its failure is fatal, and the
  message carries the error and the unformatted buffer.
\<close>

definition Output :: "env \<Rightarrow> generator \<Rightarrow> world \<Rightarrow> string result" where
  "Output env g w =
     (let w = emit (EvProcess (buf g)) w in
      case Process env (buf g) of
        Inl err \<Rightarrow>
          (Inl (Fatal (''Failed to format generated source code: '' @ err @ [NL] @ buf g)), w)
      | Inr src \<Rightarrow> (Inr src, w))"

subsection \<open>createStubs (lines 106 to 176)\<close>

text \<open>Lines 111 to 120: the package argument \<^verbatim>\<open>"."\<close> is replaced by the package of the working directory.\<close>

definition resolvePackageName :: "env \<Rightarrow> string \<Rightarrow> abort + string" where
  "resolvePackageName env packageName =
     (if packageName = ''.'' then
        (case Getwd env of
           Inl err \<Rightarrow> Inl (Fatal (''Get current directory failed: '' @ err))
         | Inr dir \<Rightarrow>
             (case packageNameOfDir env dir of
                Inl err \<Rightarrow> Inl (Fatal (''Parse package name failed: '' @ err))
              | Inr name \<Rightarrow> Inr name))
      else Inr packageName)"

text \<open>Lines 129 to 136: with \<^verbatim>\<open>-vendor\<close> the destination flag is overwritten.\<close>

definition vendorDestination :: "env \<Rightarrow> string \<Rightarrow> world \<Rightarrow> unit result" where
  "vendorDestination env packageName w =
     (if vendor env then
        (case Getwd env of
           Inl err \<Rightarrow> (Inl (Fatal (''Unable to load current director: '' @ err)), w)
         | Inr wd \<Rightarrow>
             (Inr (), w\<lparr>destination :=
                filepath_Join env [findModuleRoot env wd, ''vendor'', packageName, ''stub.go'']\<rparr>))
      else (Inr (), w))"

text \<open>
  Lines 128 and 138 to 148: standard output, or the destination file, created empty.
  (The deferred \<^verbatim>\<open>f.Close()\<close> has no effect that the model records.)
\<close>

definition openDestination :: "env \<Rightarrow> world \<Rightarrow> dest result" where
  "openDestination env w =
     (if length (destination w) > 0 then
        (let w = emit (EvMkdirAll (filepath_Dir env (destination w))) w in
         case MkdirAll env (filepath_Dir env (destination w)) of
           Some err \<Rightarrow> (Inl (Fatal (''Unable to create directory: '' @ err)), w)
         | None \<Rightarrow>
             (let w = emit (EvCreate (destination w)) w in
              case Create env (destination w) of
                Some err \<Rightarrow> (Inl (Fatal (''Failed opening destination file: '' @ err)), w)
              | None \<Rightarrow>
                  (Inr (File (destination w)), w\<lparr>files := (files w)(destination w \<mapsto> [])\<rparr>)))
      else (Inr Stdout, w))"

text \<open>Lines 150 to 164: the generator and its header fields.\<close>

definition newGenerator :: "env \<Rightarrow> string \<Rightarrow> string list \<Rightarrow> string list \<Rightarrow> world \<Rightarrow> abort + generator" where
  "newGenerator env packageName typeNames funcAndVarNames w =
     (let g = new_generator;
          g = g\<lparr>srcPackage := packageName\<rparr>;
          g = g\<lparr>srcExports := Join typeNames '',''\<rparr>;
          g = g\<lparr>srcFunctions := Join funcAndVarNames '',''\<rparr>
      in if copyrightFile env \<noteq> [] then
           (case ReadFile env (copyrightFile env) w of
              Inl err \<Rightarrow> Inl (Fatal (''Failed reading copyright file: '' @ err))
            | Inr header \<Rightarrow> Inr (g\<lparr>copyrightHeader := header\<rparr>))
         else Inr g)"

text \<open>Lines 166 to 175: generate, format, write, copy the licenses.\<close>

definition emitStub :: "env \<Rightarrow> generator \<Rightarrow> PackedPkg \<Rightarrow> dest \<Rightarrow> string list \<Rightarrow> world \<Rightarrow> unit result" where
  "emitStub env g pkg dst licenseDirs w =
     (case Generate (fmt_rest env) g pkg of
        (g, Some err) \<Rightarrow> (Inl (Fatal (''Failed generating mock: '' @ err)), w)
      | (g, None) \<Rightarrow>
          (case Output env g w of
             (Inl a, w) \<Rightarrow> (Inl a, w)
           | (Inr out, w) \<Rightarrow>
               (let w = emit (EvWrite dst out) w in
                case Write env dst out of
                  Some err \<Rightarrow> (Inl (Fatal (''Failed writing to destination: '' @ err)), w)
                | None \<Rightarrow>
                    (let w = written dst out w;
                         w = emit (EvCopyLicenses licenseDirs) w
                     in case copyLicenses env licenseDirs of
                          Some err \<Rightarrow> (Inl (Fatal (''Failed to find/copy licenses: '' @ err)), w)
                        | None \<Rightarrow> (Inr (), w)))))"

definition createStubs ::
  "env \<Rightarrow> string \<Rightarrow> string list \<Rightarrow> string list \<Rightarrow> string list \<Rightarrow> world \<Rightarrow> unit result" where
  "createStubs env packageName typeNames funcAndVarNames licenseDirs w =
     (case resolvePackageName env packageName of
        Inl a \<Rightarrow> (Inl a, w)
      | Inr packageName \<Rightarrow>
          (let w = emit (EvReflectMode packageName typeNames funcAndVarNames) w in
           case reflectMode env packageName typeNames funcAndVarNames of
             Inl err \<Rightarrow> (Inl (Fatal (''Loading input failed: '' @ err)), w)
           | Inr pkg \<Rightarrow>
               (case vendorDestination env packageName w of
                  (Inl a, w) \<Rightarrow> (Inl a, w)
                | (Inr _, w) \<Rightarrow>
                    (case openDestination env w of
                       (Inl a, w) \<Rightarrow> (Inl a, w)
                     | (Inr dst, w) \<Rightarrow>
                         (case newGenerator env packageName typeNames funcAndVarNames w of
                            Inl a \<Rightarrow> (Inl a, w)
                          | Inr g \<Rightarrow> emitStub env g pkg dst licenseDirs w)))))"

text \<open>
  A call of \<^verbatim>\<open>createStubs\<close> as \<^verbatim>\<open>main\<close> makes it (lines 86 and 99): the call is logged
  with its four arguments, then the function runs.
\<close>

definition call_createStubs ::
  "env \<Rightarrow> string \<Rightarrow> string list \<Rightarrow> string list \<Rightarrow> string list \<Rightarrow> world \<Rightarrow> unit result" where
  "call_createStubs env packageName typeNames funcAndVarNames licenseDirs w =
     createStubs env packageName typeNames funcAndVarNames licenseDirs
       (emit (EvCreateStubs packageName typeNames funcAndVarNames licenseDirs) w)"

subsection \<open>main (lines 32 to 104)\<close>

text \<open>Lines 51 to 66: with \<^verbatim>\<open>-vendor\<close> and \<^verbatim>\<open>-force\<close> the vendor directory is removed.\<close>

definition removeVendor :: "env \<Rightarrow> world \<Rightarrow> unit result" where
  "removeVendor env w =
     (if vendor env \<and> forceOverwrite env then
        (case Getwd env of
           Inl err \<Rightarrow> (Inl (Fatal (''Unable to load current director: '' @ err)), w)
         | Inr wd \<Rightarrow>
             (let vendorDir = filepath_Join env [findModuleRoot env wd, ''vendor''] in
              case DirExists env vendorDir of
                Inl err \<Rightarrow> (Inl (Panic err), w)
              | Inr exists \<Rightarrow> (Inr (), if exists then RemoveAll vendorDir w else w)))
      else (Inr (), w))"

text \<open>Lines 73 to 83: the package paths of both maps, without duplicates, sorted.\<close>

definition pkgPaths :: "env \<Rightarrow> gomap \<Rightarrow> gomap \<Rightarrow> string list" where
  "pkgPaths env pathToTypeNames pathToFuncAndVarNames =
     sort (DeduplicateStrings env (keys pathToFuncAndVarNames @ keys pathToTypeNames))"

text \<open>Lines 85 to 92: the loop over the package paths; an abort inside \<^verbatim>\<open>createStubs\<close> ends the process.\<close>

fun stubAll :: "env \<Rightarrow> gomap \<Rightarrow> gomap \<Rightarrow> gomap \<Rightarrow> string list \<Rightarrow> world \<Rightarrow> unit result" where
  "stubAll env pathToTypeNames pathToFuncAndVarNames pathToDirs [] w = (Inr (), w)"
| "stubAll env pathToTypeNames pathToFuncAndVarNames pathToDirs (pkgPath # rest) w =
     (case call_createStubs env pkgPath (index pathToTypeNames pkgPath)
             (index pathToFuncAndVarNames pkgPath) (index pathToDirs pkgPath) w of
        (Inl a, w) \<Rightarrow> (Inl a, w)
      | (Inr _, w) \<Rightarrow> stubAll env pathToTypeNames pathToFuncAndVarNames pathToDirs rest w)"

text \<open>Lines 68 to 100: automatic detection, or the package and the names of the command line.\<close>

definition generateStubs :: "env \<Rightarrow> world \<Rightarrow> unit result" where
  "generateStubs env w =
     (if modeAutoDetection env then
        (let w = emit EvAutoDetect w in
         case autoDetect env of
           Inl err \<Rightarrow> (Inl (Fatal (''Error while auto-detecting imported objects: '' @ err)), w)
         | Inr (pathToTypeNames, pathToFuncAndVarNames, pathToDirs) \<Rightarrow>
             stubAll env pathToTypeNames pathToFuncAndVarNames pathToDirs
               (pkgPaths env pathToTypeNames pathToFuncAndVarNames) w)
      else if length (Args env) \<noteq> 2 \<and> length (Args env) \<noteq> 3 then
        (Inl (Fatal ''Expected exactly two or three arguments''), emit EvUsage w)
      else
        call_createStubs env (Arg env 0) (split env (Arg env 1)) (split env (Arg env 2)) [] w)"

definition main :: "env \<Rightarrow> world \<Rightarrow> unit result" where
  "main env w =
     (if writeModuleTxt env then (Inr (), emit EvStubModulesTxt w)
      else if modePrintGoGenComments env then
        (let w = emit EvAutoDetect w in
         case autoDetect env of
           Inl err \<Rightarrow> (Inl (Fatal (''Error while auto-detecting imported objects: '' @ err)), w)
         | Inr (pathToTypeNames, pathToFuncAndVarNames, _) \<Rightarrow>
             (Inr (), emit (EvPrintGoGenerateComments pathToTypeNames pathToFuncAndVarNames) w))
      else
        (case removeVendor env w of
           (Inl a, w) \<Rightarrow> (Inl a, w)
         | (Inr _, w) \<Rightarrow>
             (case generateStubs env w of
                (Inl a, w) \<Rightarrow> (Inl a, w)
              | (Inr _, w) \<Rightarrow>
                  (Inr (), if vendor env then emit EvStubModulesTxt w else w))))"

subsection \<open>The extractor, from the specification\<close>

text \<open>
  \<^verbatim>\<open>depstubber.go\<close> calls \<^verbatim>\<open>reflectMode\<close> (line 122), the Symbol Shape Extractor together
  with the rendering of the declarations; its body is in another file of the
  repository. The definitions of this subsection follow sections 4.1, 4.2 and 7 of
  the specification instead.
\<close>

text \<open>
  Modelled from the spec: the package that \<^verbatim>\<open>reflectMode\<close> loads (its code is missing).
  The exported symbols in the order in which the package was loaded, each with the
  text of its stub declaration.
\<close>

record target =
  decls :: "(string \<times> string) list"

text \<open>
  Modelled from the spec: the text of the error \<^verbatim>\<open>ResolutionError\<close> of the missing
  \<^verbatim>\<open>reflectMode\<close>; section 7: it surfaces the offending package path.
\<close>

definition ResolutionError :: "string \<Rightarrow> string" where
  "ResolutionError packagePath = ''ResolutionError: '' @ packagePath"

text \<open>
  Modelled from the spec: the text of the error \<^verbatim>\<open>SymbolNotFoundError\<close> of the missing
  \<^verbatim>\<open>reflectMode\<close>; sections 4.1 and 7: it names the missing symbol.
\<close>

definition SymbolNotFoundError :: "string \<Rightarrow> string" where
  "SymbolNotFoundError name = ''SymbolNotFoundError: '' @ name"

text \<open>
  Modelled from the spec: the stub of one symbol, as the missing \<^verbatim>\<open>reflectMode\<close> renders
  it, and whether the loaded package lacks a name.
\<close>

definition decl_of :: "target \<Rightarrow> string \<Rightarrow> string" where
  "decl_of P name = (case map_of (decls P) name of None \<Rightarrow> [] | Some d \<Rightarrow> d)"

definition missing :: "target \<Rightarrow> string \<Rightarrow> bool" where
  "missing P name = (map_of (decls P) name = None)"

text \<open>
  Modelled from the spec: the missing function \<^verbatim>\<open>reflectMode\<close>. Section 4.1: given the
  package path, the type names and the function and variable names, one shape per
  requested name, or \<^verbatim>\<open>ResolutionError\<close> if the package cannot be loaded, or
  \<^verbatim>\<open>SymbolNotFoundError\<close> naming the first missing symbol. Section 4.2: the order of the
  declarations follows the order of the request, not the load order. \<open>load\<close> is the
  host build system.
\<close>

definition reflectMode_spec ::
  "(string \<Rightarrow> target option) \<Rightarrow> string \<Rightarrow> string list \<Rightarrow> string list \<Rightarrow> string + PackedPkg" where
  "reflectMode_spec load packageName typeNames funcAndVarNames =
     (case load packageName of
        None \<Rightarrow> Inl (ResolutionError packageName)
      | Some P \<Rightarrow>
          (case find (missing P) (typeNames @ funcAndVarNames) of
             Some name \<Rightarrow> Inl (SymbolNotFoundError name)
           | None \<Rightarrow> Inr \<lparr>Body = concat (map (decl_of P) (typeNames @ funcAndVarNames))\<rparr>))"

subsection \<open>Reading the log\<close>

fun is_call :: "event \<Rightarrow> bool" where
  "is_call (EvCreateStubs _ _ _ _) = True"
| "is_call _ = False"

text \<open>The events of the body of \<^verbatim>\<open>createStubs\<close>.\<close>

fun in_pass :: "event \<Rightarrow> bool" where
  "in_pass (EvReflectMode _ _ _) = True"
| "in_pass (EvMkdirAll _) = True"
| "in_pass (EvCreate _) = True"
| "in_pass (EvProcess _) = True"
| "in_pass (EvWrite _ _) = True"
| "in_pass (EvCopyLicenses _) = True"
| "in_pass _ = False"

definition extends :: "world \<Rightarrow> world \<Rightarrow> bool" where
  "extends w w' = (\<exists>es. trace w' = trace w @ es \<and> list_all in_pass es)"

text \<open>What a run appended to the log and to standard output.\<close>

definition new_events :: "world \<Rightarrow> world \<Rightarrow> event list" where
  "new_events w w' = drop (length (trace w)) (trace w')"

definition new_stdout :: "world \<Rightarrow> world \<Rightarrow> string" where
  "new_stdout w w' = drop (length (stdout w)) (stdout w')"

text \<open>The call that the loop of \<^verbatim>\<open>main\<close> makes for a package path (lines 86 to 91).\<close>

definition call_of :: "gomap \<Rightarrow> gomap \<Rightarrow> gomap \<Rightarrow> string \<Rightarrow> event" where
  "call_of pathToTypeNames pathToFuncAndVarNames pathToDirs pkgPath =
     EvCreateStubs pkgPath (index pathToTypeNames pkgPath)
       (index pathToFuncAndVarNames pkgPath) (index pathToDirs pkgPath)"

text \<open>The events of one pass: the call, then events of the body of \<^verbatim>\<open>createStubs\<close> only.\<close>

definition pass_block :: "gomap \<Rightarrow> gomap \<Rightarrow> gomap \<Rightarrow> string \<Rightarrow> event list \<Rightarrow> bool" where
  "pass_block pathToTypeNames pathToFuncAndVarNames pathToDirs pkgPath es =
     (case es of
        [] \<Rightarrow> False
      | e # rest \<Rightarrow>
          e = call_of pathToTypeNames pathToFuncAndVarNames pathToDirs pkgPath \<and> list_all in_pass rest)"

subsection \<open>A sample environment\<close>

definition demo_load :: "string \<Rightarrow> target option" where
  "demo_load packagePath =
     (if packagePath = ''a/x'' then
        Some \<lparr>decls = [(''F'', ''func F() {}''), (''U'', ''type U int'')]\<rparr>
      else if packagePath = ''b/y'' then
        Some \<lparr>decls = [(''T'', ''type T int'')]\<rparr>
      else None)"

definition demo_env :: env where
  "demo_env =
     \<lparr>vendor = False, copyrightFile = [], writeModuleTxt = False, forceOverwrite = False,
      modeAutoDetection = False, modePrintGoGenComments = False,
      Args = [''a/x'', ''U'', ''F''],
      Getwd = Inr ''/proj'',
      filepath_Join = (\<lambda>elems. Join elems ''/''),
      filepath_Dir = (\<lambda>path. rev (drop 1 (dropWhile (\<lambda>c. c \<noteq> CHR ''/'') (rev path)))),
      MkdirAll = (\<lambda>_. None),
      Create = (\<lambda>_. None),
      Write = (\<lambda>_ _. None),
      ReadFile_error = (\<lambda>name. ''open '' @ name @ '': no such file or directory''),
      Process = Inr,
      fmt_rest = (\<lambda>_ _ _. []),
      findModuleRoot = (\<lambda>wd. wd),
      DirExists = (\<lambda>_. Inr True),
      autoDetect = Inr ([(''b/y'', [''T'']), (''a/x'', [''U''])], [(''a/x'', [''F''])], []),
      DeduplicateStrings = remdups,
      packageNameOfDir = (\<lambda>_. Inr ''a/x''),
      reflectMode = reflectMode_spec demo_load,
      split = (\<lambda>s. if s = [] then [] else Split s (CHR '','')),
      copyLicenses = (\<lambda>_. None)\<rparr>"

definition demo_world :: world where
  "demo_world =
     \<lparr>files = (\<lambda>path. if path = ''/proj/vendor/old/lib.go'' then Some ''package old'' else None),
      stdout = [], destination = [], trace = []\<rparr>"

text \<open>Automatic detection finding two packages, one of them in both maps.\<close>

definition demo_auto :: env where
  "demo_auto = demo_env\<lparr>modeAutoDetection := True\<rparr>"


text \<open>Automatic detection on a package without external imports.\<close>

definition demo_no_imports :: env where
  "demo_no_imports = demo_env\<lparr>modeAutoDetection := True, autoDetect := Inr ([], [], [])\<rparr>"

text \<open>The command line \<^verbatim>\<open>-vendor -force a/x U F\<close>.\<close>

definition demo_vendor :: env where
  "demo_vendor = demo_env\<lparr>vendor := True, forceOverwrite := True\<rparr>"

text \<open>A formatter that rejects its input, and a destination file that already exists.\<close>

definition demo_bad_format :: env where
  "demo_bad_format = demo_env\<lparr>Process := (\<lambda>src. Inl ''1:1: expected package'')\<rparr>"

definition demo_named :: world where
  "demo_named = demo_world\<lparr>destination := ''/proj/out/stub.go'',
     files := (files demo_world)(''/proj/out/stub.go'' \<mapsto> ''package old'')\<rparr>"

text \<open>A second load of the sample packages that lists the symbols of \<^verbatim>\<open>a/x\<close> in another order.\<close>

definition demo_reload :: "string \<Rightarrow> target option" where
  "demo_reload packagePath =
     (if packagePath = ''a/x'' then
        Some \<lparr>decls = [(''U'', ''type U int''), (''F'', ''func F() {}'')]\<rparr>
      else demo_load packagePath)"

section \<open>Properties\<close>

lemmas demo_defs = demo_auto_def demo_env_def demo_world_def demo_load_def


lemmas run_defs = main_def removeVendor_def generateStubs_def pkgPaths_def keys_def index_def
  call_createStubs_def createStubs_def resolvePackageName_def vendorDestination_def
  openDestination_def newGenerator_def new_generator_def emitStub_def Generate_def Output_def
  p_def Sprintf_def written_def reflectMode_spec_def missing_def decl_of_def
  SymbolNotFoundError_def ResolutionError_def emit_def Let_def new_events_def call_of_def

subsection \<open>The log only grows\<close>

lemma emit_simps [simp]:
  "files (emit e w) = files w" "stdout (emit e w) = stdout w"
  "destination (emit e w) = destination w" "trace (emit e w) = trace w @ [e]"
  by (simp_all add: emit_def)

lemma written_simps [simp]:
  "trace (written dst b w) = trace w" "destination (written dst b w) = destination w"
  by (simp_all add: written_def split: dest.splits)

lemma Generate_None [simp]: "snd (Generate other g pkg) = None"
  by (simp add: Generate_def Let_def)

lemma extends_update [simp]:
  "extends w0 (w\<lparr>files := f\<rparr>) = extends w0 w"
  "extends w0 (w\<lparr>stdout := s\<rparr>) = extends w0 w"
  "extends w0 (w\<lparr>destination := d\<rparr>) = extends w0 w"
  by (simp_all add: extends_def)

lemma extends_written [simp]: "extends w0 (written dst b w) = extends w0 w"
  by (simp add: written_def split: dest.splits)

lemma extends_refl [simp]: "extends w w"
  by (simp add: extends_def)

lemma extends_emit: "in_pass e \<Longrightarrow> extends w w' \<Longrightarrow> extends w (emit e w')"
  by (auto simp: extends_def)

lemma vendorDestination_extends:
  "extends w0 w \<Longrightarrow> extends w0 (snd (vendorDestination env name w))"
  by (auto simp: vendorDestination_def split: sum.splits)

lemma openDestination_extends:
  "extends w0 w \<Longrightarrow> extends w0 (snd (openDestination env w))"
  by (auto simp: openDestination_def Let_def split: option.splits intro!: extends_emit)

lemma emitStub_extends:
  "extends w0 w \<Longrightarrow> extends w0 (snd (emitStub env g pkg dst ds w))"
  by (auto simp: emitStub_def Output_def Let_def split: option.splits prod.splits sum.splits
      intro!: extends_emit)

lemma createStubs_extends:
  assumes a: "extends w0 w"
  shows "extends w0 (snd (createStubs env pn tys fvs ds w))"
proof (cases "resolvePackageName env pn")
  case (Inl x)
  then show ?thesis using a by (simp add: createStubs_def)
next
  case (Inr name)
  let ?w1 = "emit (EvReflectMode name tys fvs) w"
  have e1: "extends w0 ?w1" using a by (simp add: extends_emit)
  show ?thesis
  proof (cases "reflectMode env name tys fvs")
    case (Inl err)
    then show ?thesis using Inr e1 by (simp add: createStubs_def)
  next
    case pk: (Inr pkg)
    obtain r2 w2 where v: "vendorDestination env name ?w1 = (r2, w2)" by force
    have e2: "extends w0 w2" using vendorDestination_extends [OF e1, of env name] v by simp
    obtain r3 w3 where od: "openDestination env w2 = (r3, w3)" by force
    have e3: "extends w0 w3" using openDestination_extends [OF e2, of env] od by simp
    show ?thesis
      using Inr pk v od e2 e3 emitStub_extends [OF e3]
      by (auto simp: createStubs_def Let_def split: sum.splits)
  qed
qed

lemma call_createStubs_trace:
  "\<exists>es. trace (snd (call_createStubs env pn tys fvs ds w)) =
          trace w @ EvCreateStubs pn tys fvs ds # es \<and> list_all in_pass es"
proof -
  have "extends (emit (EvCreateStubs pn tys fvs ds) w)
          (snd (createStubs env pn tys fvs ds (emit (EvCreateStubs pn tys fvs ds) w)))"
    by (rule createStubs_extends) simp
  then show ?thesis
    by (auto simp: extends_def call_createStubs_def)
qed

subsection \<open>The package argument \<^verbatim>\<open>"."\<close>\<close>

lemma resolvePackageName_again:
  "resolvePackageName env ''.'' = Inr name \<Longrightarrow> resolvePackageName env name = Inr name"
  by (auto simp: resolvePackageName_def split: sum.splits if_splits)

text \<open>
  C10. When the package argument is \<^verbatim>\<open>"."\<close> and the working directory and its package
  are found, \<^verbatim>\<open>createStubs\<close> does exactly what it does when it is given the resolved
  path: the extractor is called with the resolved path, and the outcome and the whole
  final world (files, standard output, the destination under \<^verbatim>\<open>vendor\<close>, the header
  in the text written) are those of the run on the resolved path.
\<close>

theorem createStubs_dot_is_resolved:
  assumes "Getwd env = Inr dir" and "packageNameOfDir env dir = Inr name"
  shows "resolvePackageName env ''.'' = Inr name \<and>
         createStubs env ''.'' typeNames funcAndVarNames licenseDirs w =
         createStubs env name typeNames funcAndVarNames licenseDirs w \<and>
         prefix (trace w @ [EvReflectMode name typeNames funcAndVarNames])
           (trace (snd (createStubs env ''.'' typeNames funcAndVarNames licenseDirs w)))"
proof -
  have r: "resolvePackageName env ''.'' = Inr name"
    using assms by (simp add: resolvePackageName_def)
  have eq: "createStubs env ''.'' typeNames funcAndVarNames licenseDirs w =
            createStubs env name typeNames funcAndVarNames licenseDirs w"
    using resolvePackageName_again [OF r] r by (simp add: createStubs_def)
  let ?w1 = "emit (EvReflectMode name typeNames funcAndVarNames) w"
  have "extends ?w1 (snd (createStubs env ''.'' typeNames funcAndVarNames licenseDirs w))"
  proof (cases "reflectMode env name typeNames funcAndVarNames")
    case (Inl err)
    then show ?thesis using r by (simp add: createStubs_def)
  next
    case (Inr pkg)
    obtain r2 w2 where v: "vendorDestination env name ?w1 = (r2, w2)" by force
    have e2: "extends ?w1 w2" using vendorDestination_extends [of ?w1 ?w1 env name] v by simp
    obtain r3 w3 where od: "openDestination env w2 = (r3, w3)" by force
    have e3: "extends ?w1 w3" using openDestination_extends [OF e2, of env] od by simp
    show ?thesis
      using r Inr v od e2 e3 emitStub_extends [OF e3]
      by (auto simp: createStubs_def Let_def split: sum.splits)
  qed
  then have "prefix (trace w @ [EvReflectMode name typeNames funcAndVarNames])
           (trace (snd (createStubs env ''.'' typeNames funcAndVarNames licenseDirs w)))"
    by (auto simp: extends_def prefix_def)
  with r eq show ?thesis by simp
qed

theorem createStubs_dot_is_resolved_witness:
  "Getwd demo_env = Inr ''/proj'' \<and> packageNameOfDir demo_env ''/proj'' = Inr ''a/x'' \<and>
   resolvePackageName demo_env ''.'' = Inr ''a/x'' \<and>
   createStubs demo_env ''.'' [''U''] [''F''] [] demo_world =
   createStubs demo_env ''a/x'' [''U''] [''F''] [] demo_world"
  using createStubs_dot_is_resolved [of demo_env "''/proj''" "''a/x''" "[''U'']" "[''F'']" "[]" demo_world]
  by (simp add: demo_env_def)

subsection \<open>A requested symbol that the package does not have\<close>







subsection \<open>The run in automatic detection\<close>

lemma in_pass_not_call: "in_pass e \<Longrightarrow> \<not> is_call e"
  by (cases e) simp_all

lemma filter_call_in_pass: "list_all in_pass es \<Longrightarrow> filter is_call es = []"
  by (induction es) (auto dest: in_pass_not_call)

lemma RemoveAll_simps [simp]:
  "trace (RemoveAll d w) = trace w @ [EvRemoveAll d]"
  "stdout (RemoveAll d w) = stdout w"
  "destination (RemoveAll d w) = destination w"
  "files (RemoveAll d w) path = (if lies_under d path then None else files w path)"
  by (simp_all add: RemoveAll_def)

lemma removeVendor_trace:
  "trace (snd (removeVendor env w)) = trace w \<or>
   (\<exists>d. fst (removeVendor env w) = Inr () \<and> trace (snd (removeVendor env w)) = trace w @ [EvRemoveAll d])"
  by (auto simp: removeVendor_def Let_def split: sum.splits)

lemma removeVendor_abort:
  "removeVendor env w = (Inl a, w1) \<Longrightarrow> w1 = w"
  by (auto simp: removeVendor_def Let_def split: sum.splits if_splits)

lemma call_createStubs_block:
  "\<exists>es. trace (snd (call_createStubs env pkgPath (index ty pkgPath) (index fv pkgPath) (index dirs pkgPath) w))
          = trace w @ es \<and> pass_block ty fv dirs pkgPath es"
  using call_createStubs_trace [of env pkgPath "index ty pkgPath" "index fv pkgPath" "index dirs pkgPath" w]
  by (auto simp: pass_block_def call_of_def)

lemma stubAll_blocks:
  "\<exists>blocks. trace (snd (stubAll env ty fv dirs ps w)) = trace w @ concat blocks \<and>
     length blocks \<le> length ps \<and>
     list_all2 (pass_block ty fv dirs) (take (length blocks) ps) blocks \<and>
     (fst (stubAll env ty fv dirs ps w) = Inr () \<longrightarrow> length blocks = length ps)"
proof (induction ps arbitrary: w)
  case Nil
  show ?case by (rule exI [of _ "[]"]) simp
next
  case (Cons pkgPath rest)
  obtain r w1 where c: "call_createStubs env pkgPath (index ty pkgPath) (index fv pkgPath) (index dirs pkgPath) w = (r, w1)"
    by force
  obtain es where es: "trace w1 = trace w @ es" "pass_block ty fv dirs pkgPath es"
    using call_createStubs_block [of env pkgPath ty fv dirs w] c by auto
  show ?case
  proof (cases r)
    case (Inl a)
    show ?thesis
      by (rule exI [of _ "[es]"]) (use c Inl es in simp)
  next
    case (Inr u)
    obtain blocks where b: "trace (snd (stubAll env ty fv dirs rest w1)) = trace w1 @ concat blocks"
      "length blocks \<le> length rest"
      "list_all2 (pass_block ty fv dirs) (take (length blocks) rest) blocks"
      "fst (stubAll env ty fv dirs rest w1) = Inr () \<longrightarrow> length blocks = length rest"
      using Cons.IH [of w1] by blast
    show ?thesis
      by (rule exI [of _ "es # blocks"]) (use c Inr es b in simp)
  qed
qed

lemma calls_of_blocks:
  "list_all2 (pass_block ty fv dirs) ps blocks \<Longrightarrow>
   filter is_call (concat blocks) = map (call_of ty fv dirs) ps"
proof (induction ps blocks rule: list_all2_induct)
  case Nil
  then show ?case by simp
next
  case (Cons x xs y ys)
  then show ?case
    by (auto simp: pass_block_def call_of_def filter_call_in_pass split: list.splits)
qed

lemma pkgPaths_sorted_set:
  assumes "\<forall>xs. set (DeduplicateStrings env xs) = set xs \<and> distinct (DeduplicateStrings env xs)"
  shows "pkgPaths env ty fv = sorted_list_of_set (set (keys ty) \<union> set (keys fv))"
proof -
  let ?d = "DeduplicateStrings env (keys fv @ keys ty)"
  have "distinct ?d" "set ?d = set (keys ty) \<union> set (keys fv)" using assms by auto
  then have "sort ?d = sorted_list_of_set (set (keys ty) \<union> set (keys fv))"
    by (metis sorted_list_of_set_sort_remdups distinct_remdups_id)
  then show ?thesis by (simp add: pkgPaths_def)
qed

lemma main_generate:
  assumes "\<not> writeModuleTxt env" "\<not> modePrintGoGenComments env"
  shows "main env w =
     (case removeVendor env w of
        (Inl a, w) \<Rightarrow> (Inl a, w)
      | (Inr _, w) \<Rightarrow>
          (case generateStubs env w of
             (Inl a, w) \<Rightarrow> (Inl a, w)
           | (Inr _, w) \<Rightarrow> (Inr (), if vendor env then emit EvStubModulesTxt w else w)))"
  using assms by (simp add: main_def)

lemma generateStubs_auto:
  assumes "modeAutoDetection env" "autoDetect env = Inr (ty, fv, dirs)"
  shows "generateStubs env w = stubAll env ty fv dirs (pkgPaths env ty fv) (emit EvAutoDetect w)"
  using assms by (simp add: generateStubs_def)

lemma main_auto_shape:
  assumes "\<not> writeModuleTxt env" "\<not> modePrintGoGenComments env" "modeAutoDetection env"
    and "autoDetect env = Inr (ty, fv, dirs)"
  shows "new_events w (snd (main env w)) = [] \<and> fst (main env w) \<noteq> Inr () \<or>
    (\<exists>r blocks post. new_events w (snd (main env w)) = r @ EvAutoDetect # concat blocks @ post \<and>
       (r = [] \<or> (\<exists>d. r = [EvRemoveAll d])) \<and>
       length blocks \<le> length (pkgPaths env ty fv) \<and>
       list_all2 (pass_block ty fv dirs) (take (length blocks) (pkgPaths env ty fv)) blocks \<and>
       (post = [] \<or> post = [EvStubModulesTxt]) \<and>
       (fst (main env w) = Inr () \<longrightarrow> length blocks = length (pkgPaths env ty fv)))"
proof -
  obtain r1 w1 where rv: "removeVendor env w = (r1, w1)" by force
  show ?thesis
  proof (cases r1)
    case (Inl a)
    then have "w1 = w" using rv removeVendor_abort by blast
    then show ?thesis using rv Inl assms by (simp add: main_generate new_events_def)
  next
    case (Inr u)
    obtain r where r: "trace w1 = trace w @ r" "r = [] \<or> (\<exists>d. r = [EvRemoveAll d])"
      using removeVendor_trace [of env w] rv by auto
    let ?ps = "pkgPaths env ty fv"
    obtain r2 w2 where g: "stubAll env ty fv dirs ?ps (emit EvAutoDetect w1) = (r2, w2)" by force
    obtain blocks where b: "trace w2 = trace w1 @ EvAutoDetect # concat blocks"
      "length blocks \<le> length ?ps"
      "list_all2 (pass_block ty fv dirs) (take (length blocks) ?ps) blocks"
      "r2 = Inr () \<longrightarrow> length blocks = length ?ps"
      using stubAll_blocks [of env ty fv dirs ?ps "emit EvAutoDetect w1"] g by auto
    have m: "main env w = (case r2 of Inl a \<Rightarrow> (Inl a, w2)
               | Inr _ \<Rightarrow> (Inr (), if vendor env then emit EvStubModulesTxt w2 else w2))"
      using assms rv Inr g by (simp add: main_generate generateStubs_auto split: sum.splits)
    show ?thesis
    proof (cases r2)
      case (Inl a)
      have "new_events w (snd (main env w)) = r @ EvAutoDetect # concat blocks @ []"
        using m Inl r b by (simp add: new_events_def)
      moreover have "fst (main env w) \<noteq> Inr ()" using m Inl by simp
      ultimately show ?thesis using r b by blast
    next
      case u2: (Inr u')
      let ?post = "if vendor env then [EvStubModulesTxt] else []"
      have "new_events w (snd (main env w)) = r @ EvAutoDetect # concat blocks @ ?post"
        using m u2 r b by (simp add: new_events_def)
      moreover have "?post = [] \<or> ?post = [EvStubModulesTxt]" by simp
      moreover have "length blocks = length ?ps" using b u2 by simp
      ultimately show ?thesis using r b by blast
    qed
  qed
qed

text \<open>
  C3. In automatic detection, with \<^verbatim>\<open>DeduplicateStrings\<close> keeping exactly the elements of
  its argument, each once: the package paths of the loop are the keys of the two maps
  taken together, each once, in increasing order; \<^verbatim>\<open>createStubs\<close> is called for an
  initial segment of them, in that order, once each, with the entries of the maps for
  that path; and when the run ends without an abort, it has been called for all of them.
\<close>

theorem auto_detect_one_pass_per_package:
  assumes "\<not> writeModuleTxt env" and "\<not> modePrintGoGenComments env" and "modeAutoDetection env"
    and "autoDetect env = Inr (ty, fv, dirs)"
    and "\<forall>xs. set (DeduplicateStrings env xs) = set xs \<and> distinct (DeduplicateStrings env xs)"
  shows "pkgPaths env ty fv = sorted_list_of_set (set (keys ty) \<union> set (keys fv)) \<and>
         (\<exists>n. n \<le> length (pkgPaths env ty fv) \<and>
            filter is_call (new_events w (snd (main env w))) =
              map (call_of ty fv dirs) (take n (pkgPaths env ty fv)) \<and>
            (fst (main env w) = Inr () \<longrightarrow> n = length (pkgPaths env ty fv)))"
proof -
  let ?ps = "pkgPaths env ty fv"
  let ?new = "new_events w (snd (main env w))"
  have "\<exists>n. n \<le> length ?ps \<and> filter is_call ?new = map (call_of ty fv dirs) (take n ?ps) \<and>
            (fst (main env w) = Inr () \<longrightarrow> n = length ?ps)"
  proof (cases "?new = [] \<and> fst (main env w) \<noteq> Inr ()")
    case True
    then show ?thesis by (intro exI [of _ 0]) simp
  next
    case False
    then obtain r blocks post where new: "?new = r @ EvAutoDetect # concat blocks @ post"
      and r: "r = [] \<or> (\<exists>d. r = [EvRemoveAll d])"
      and len: "length blocks \<le> length ?ps"
      and blocks: "list_all2 (pass_block ty fv dirs) (take (length blocks) ?ps) blocks"
      and post: "post = [] \<or> post = [EvStubModulesTxt]"
      and fin: "fst (main env w) = Inr () \<longrightarrow> length blocks = length ?ps"
      using main_auto_shape [OF assms(1-4), of w] by blast
    have "filter is_call ?new = filter is_call (concat blocks)"
      using new r post by auto
    then have "filter is_call ?new = map (call_of ty fv dirs) (take (length blocks) ?ps)"
      using calls_of_blocks [OF blocks] by simp
    then show ?thesis using len fin by blast
  qed
  then show ?thesis using pkgPaths_sorted_set [OF assms(5)] by simp
qed

theorem auto_detect_one_pass_per_package_witness:
  "\<not> writeModuleTxt demo_auto \<and> \<not> modePrintGoGenComments demo_auto \<and> modeAutoDetection demo_auto \<and>
   autoDetect demo_auto = Inr ([(''b/y'', [''T'']), (''a/x'', [''U''])], [(''a/x'', [''F''])], []) \<and>
   (\<forall>xs. set (DeduplicateStrings demo_auto xs) = set xs \<and> distinct (DeduplicateStrings demo_auto xs)) \<and>
   pkgPaths demo_auto [(''b/y'', [''T'']), (''a/x'', [''U''])] [(''a/x'', [''F''])] = [''a/x'', ''b/y''] \<and>
   fst (main demo_auto demo_world) = Inr () \<and>
   filter is_call (new_events demo_world (snd (main demo_auto demo_world))) =
     [EvCreateStubs ''a/x'' [''U''] [''F''] [], EvCreateStubs ''b/y'' [''T''] [] []]"
proof -
  have run: "fst (main demo_auto demo_world) = Inr ()"
    by (simp add: demo_defs run_defs)
  have pk: "pkgPaths demo_auto [(''b/y'', [''T'']), (''a/x'', [''U''])] [(''a/x'', [''F''])] = [''a/x'', ''b/y'']"
    by (simp add: demo_defs pkgPaths_def keys_def)
  have h: "\<not> writeModuleTxt demo_auto" "\<not> modePrintGoGenComments demo_auto" "modeAutoDetection demo_auto"
    "autoDetect demo_auto = Inr ([(''b/y'', [''T'']), (''a/x'', [''U''])], [(''a/x'', [''F''])], [])"
    "\<forall>xs. set (DeduplicateStrings demo_auto xs) = set xs \<and> distinct (DeduplicateStrings demo_auto xs)"
    by (simp_all add: demo_defs)
  from auto_detect_one_pass_per_package [OF h, of demo_world]
  obtain n where "filter is_call (new_events demo_world (snd (main demo_auto demo_world))) =
      map (call_of [(''b/y'', [''T'']), (''a/x'', [''U''])] [(''a/x'', [''F''])] [])
        (take n (pkgPaths demo_auto [(''b/y'', [''T'']), (''a/x'', [''U''])] [(''a/x'', [''F''])]))"
    and "fst (main demo_auto demo_world) = Inr () \<longrightarrow>
      n = length (pkgPaths demo_auto [(''b/y'', [''T'']), (''a/x'', [''U''])] [(''a/x'', [''F''])])"
    by blast
  with run pk
  have "filter is_call (new_events demo_world (snd (main demo_auto demo_world))) =
     map (call_of [(''b/y'', [''T'']), (''a/x'', [''U''])] [(''a/x'', [''F''])] []) [''a/x'', ''b/y'']"
    by simp
  then show ?thesis using h run pk by (simp add: call_of_def index_def)
qed






text \<open>
  C7. In automatic detection with both name maps empty (and \<^verbatim>\<open>DeduplicateStrings\<close>
  returning the empty list for the empty list), the list of package paths is empty, the
  loop does nothing, and the run has no call of \<^verbatim>\<open>createStubs\<close> and no event of a pass.
\<close>

theorem no_external_imports_no_passes:
  assumes "\<not> writeModuleTxt env" and "\<not> modePrintGoGenComments env" and "modeAutoDetection env"
    and "autoDetect env = Inr ([], [], dirs)"
    and "DeduplicateStrings env [] = []"
  shows "pkgPaths env [] [] = [] \<and>
         generateStubs env w = (Inr (), emit EvAutoDetect w) \<and>
         list_all (\<lambda>e. \<not> is_call e \<and> \<not> in_pass e) (new_events w (snd (main env w)))"
proof -
  have pk: "pkgPaths env [] [] = []"
    using assms(5) by (simp add: pkgPaths_def keys_def)
  have g: "generateStubs env w = (Inr (), emit EvAutoDetect w)"
    using assms(3,4) pk by (simp add: generateStubs_auto)
  have "list_all (\<lambda>e. \<not> is_call e \<and> \<not> in_pass e) (new_events w (snd (main env w)))"
  proof (cases "new_events w (snd (main env w)) = []")
    case True
    then show ?thesis by simp
  next
    case False
    then obtain r blocks post where new: "new_events w (snd (main env w)) = r @ EvAutoDetect # concat blocks @ post"
      and r: "r = [] \<or> (\<exists>d. r = [EvRemoveAll d])"
      and len: "length blocks \<le> length (pkgPaths env [] [])"
      and post: "post = [] \<or> post = [EvStubModulesTxt]"
      using main_auto_shape [OF assms(1-4), of w] by blast
    have "blocks = []" using len pk by simp
    then show ?thesis using new r post by auto
  qed
  with pk g show ?thesis by simp
qed

theorem no_external_imports_no_passes_witness:
  "\<not> writeModuleTxt demo_no_imports \<and> \<not> modePrintGoGenComments demo_no_imports \<and>
   modeAutoDetection demo_no_imports \<and> autoDetect demo_no_imports = Inr ([], [], []) \<and>
   DeduplicateStrings demo_no_imports [] = [] \<and>
   pkgPaths demo_no_imports [] [] = [] \<and>
   main demo_no_imports demo_world = (Inr (), emit EvAutoDetect demo_world)"
  using no_external_imports_no_passes [of demo_no_imports "[]" demo_world]
  by (simp add: demo_no_imports_def demo_env_def main_def removeVendor_def)

subsection \<open>The vendor directory\<close>

lemma generateStubs_grows:
  "\<exists>es. trace (snd (generateStubs env w)) = trace w @ es"
proof (cases "modeAutoDetection env")
  case True
  show ?thesis
  proof (cases "autoDetect env")
    case (Inl err)
    then show ?thesis using True by (simp add: generateStubs_def)
  next
    case (Inr maps)
    obtain ty fv dirs where maps: "maps = (ty, fv, dirs)" by (cases maps) auto
    show ?thesis
      using stubAll_blocks [of env ty fv dirs "pkgPaths env ty fv" "emit EvAutoDetect w"] True Inr maps
      by (auto simp: generateStubs_def)
  qed
next
  case False
  then show ?thesis
    using call_createStubs_trace [of env "Arg env 0" "split env (Arg env 1)" "split env (Arg env 2)" "[]" w]
    by (auto simp: generateStubs_def)
qed

text \<open>
  C8. With \<^verbatim>\<open>-vendor\<close> and \<^verbatim>\<open>-force\<close> (and neither \<^verbatim>\<open>-write_module_txt\<close> nor \<^verbatim>\<open>-print\<close>),
  when the vendor directory of the module root exists, it is removed first: the first
  event of the run is its removal, generation starts in a world where no path under
  that directory has a content (whatever package it belonged to) and every other path
  is as before.
\<close>

theorem vendor_force_removes_vendor_dir:
  assumes "\<not> writeModuleTxt env" and "\<not> modePrintGoGenComments env"
    and "vendor env" and "forceOverwrite env"
    and "Getwd env = Inr wd"
    and "filepath_Join env [findModuleRoot env wd, ''vendor''] = vendorDir"
    and "DirExists env vendorDir = Inr True"
  shows "removeVendor env w = (Inr (), RemoveAll vendorDir w) \<and>
         (\<forall>path. lies_under vendorDir path \<longrightarrow> files (RemoveAll vendorDir w) path = None) \<and>
         (\<forall>path. \<not> lies_under vendorDir path \<longrightarrow> files (RemoveAll vendorDir w) path = files w path) \<and>
         main env w =
           (case generateStubs env (RemoveAll vendorDir w) of
              (Inl a, w') \<Rightarrow> (Inl a, w')
            | (Inr _, w') \<Rightarrow> (Inr (), emit EvStubModulesTxt w')) \<and>
         prefix (trace w @ [EvRemoveAll vendorDir]) (trace (snd (main env w)))"
proof -
  have rv: "removeVendor env w = (Inr (), RemoveAll vendorDir w)"
    using assms by (simp add: removeVendor_def)
  have m: "main env w =
           (case generateStubs env (RemoveAll vendorDir w) of
              (Inl a, w') \<Rightarrow> (Inl a, w')
            | (Inr _, w') \<Rightarrow> (Inr (), emit EvStubModulesTxt w'))"
    using assms(1-3) rv by (simp add: main_generate split: prod.splits sum.splits)
  obtain es where es: "trace (snd (generateStubs env (RemoveAll vendorDir w))) =
      trace (RemoveAll vendorDir w) @ es"
    using generateStubs_grows by blast
  have "prefix (trace w @ [EvRemoveAll vendorDir]) (trace (snd (main env w)))"
    using es by (auto simp: m prefix_def split: prod.splits sum.splits)
  with rv m show ?thesis by simp
qed

theorem vendor_force_removes_vendor_dir_witness:
  "\<not> writeModuleTxt demo_vendor \<and> \<not> modePrintGoGenComments demo_vendor \<and>
   vendor demo_vendor \<and> forceOverwrite demo_vendor \<and> Getwd demo_vendor = Inr ''/proj'' \<and>
   filepath_Join demo_vendor [findModuleRoot demo_vendor ''/proj'', ''vendor''] = ''/proj/vendor'' \<and>
   DirExists demo_vendor ''/proj/vendor'' = Inr True \<and>
   lies_under ''/proj/vendor'' ''/proj/vendor/old/lib.go'' \<and>
   files demo_world ''/proj/vendor/old/lib.go'' = Some ''package old'' \<and>
   removeVendor demo_vendor demo_world = (Inr (), RemoveAll ''/proj/vendor'' demo_world) \<and>
   files (RemoveAll ''/proj/vendor'' demo_world) ''/proj/vendor/old/lib.go'' = None \<and>
   prefix (trace demo_world @ [EvRemoveAll ''/proj/vendor''])
     (trace (snd (main demo_vendor demo_world)))"
proof -
  have h: "\<not> writeModuleTxt demo_vendor" "\<not> modePrintGoGenComments demo_vendor"
    "vendor demo_vendor" "forceOverwrite demo_vendor" "Getwd demo_vendor = Inr ''/proj''"
    "filepath_Join demo_vendor [findModuleRoot demo_vendor ''/proj'', ''vendor''] = ''/proj/vendor''"
    "DirExists demo_vendor ''/proj/vendor'' = Inr True"
    by (simp_all add: demo_vendor_def demo_env_def)
  have u: "lies_under ''/proj/vendor'' ''/proj/vendor/old/lib.go''"
    by (simp add: lies_under_def)
  have f: "files demo_world ''/proj/vendor/old/lib.go'' = Some ''package old''"
    by (simp add: demo_world_def)
  from vendor_force_removes_vendor_dir [OF h, of demo_world] u h f show ?thesis
    by blast
qed

subsection \<open>A failure of the formatter\<close>

lemma vendorDestination_emit:
  "vendorDestination env name (emit e w) =
     (case vendorDestination env name w of (r, w') \<Rightarrow> (r, emit e w'))"
  by (auto simp: vendorDestination_def emit_def split: sum.splits)

lemma vendorDestination_frame:
  "vendorDestination env name w = (r, w') \<Longrightarrow>
     files w' = files w \<and> stdout w' = stdout w \<and> trace w' = trace w"
  by (auto simp: vendorDestination_def split: sum.splits if_splits)

lemma newGenerator_files:
  "files w' = files w \<Longrightarrow> newGenerator env name tys fvs w' = newGenerator env name tys fvs w"
  by (simp add: newGenerator_def ReadFile_def Let_def)

text \<open>
  C9. When the destination is a file (named on the command line, or the one under
  \<^verbatim>\<open>vendor\<close>) and the extraction succeeds, the file is created empty before the text is
  generated and formatted. If \<^verbatim>\<open>imports.Process\<close> then fails, the run ends in
  \<^verbatim>\<open>log.Fatalf\<close> (line 242) and the destination is left as an empty file, whatever it
  held before: the log shows \<^verbatim>\<open>os.Create\<close> before the formatter and no write.
\<close>

theorem format_failure_leaves_empty_file:
  assumes "resolvePackageName env packageName = Inr name"
    and "reflectMode env name typeNames funcAndVarNames = Inr pkg"
    and "vendorDestination env name w = (Inr (), wv)"
    and "destination wv \<noteq> []"
    and "MkdirAll env (filepath_Dir env (destination wv)) = None"
    and "Create env (destination wv) = None"
    and "newGenerator env name typeNames funcAndVarNames
           (w\<lparr>files := (files w)(destination wv \<mapsto> [])\<rparr>) = Inr g"
    and "Process env (buf (fst (Generate (fmt_rest env) g pkg))) = Inl err"
  shows "\<exists>w'. createStubs env packageName typeNames funcAndVarNames licenseDirs w =
           (Inl (Fatal (''Failed to format generated source code: '' @ err @ [NL] @
                        buf (fst (Generate (fmt_rest env) g pkg)))), w') \<and>
           files w' = (files w)(destination wv \<mapsto> []) \<and>
           stdout w' = stdout w \<and>
           trace w' = trace w @
             [EvReflectMode name typeNames funcAndVarNames,
              EvMkdirAll (filepath_Dir env (destination wv)),
              EvCreate (destination wv),
              EvProcess (buf (fst (Generate (fmt_rest env) g pkg)))]"
proof -
  let ?d = "destination wv"
  let ?w1 = "emit (EvReflectMode name typeNames funcAndVarNames) w"
  let ?wv1 = "emit (EvReflectMode name typeNames funcAndVarNames) wv"
  let ?w3 = "(emit (EvCreate ?d) (emit (EvMkdirAll (filepath_Dir env ?d)) ?wv1))\<lparr>files :=
      (files wv)(?d \<mapsto> [])\<rparr>"
  have fr: "files wv = files w" "stdout wv = stdout w" "trace wv = trace w"
    using vendorDestination_frame [OF assms(3)] by simp_all
  have v: "vendorDestination env name ?w1 = (Inr (), ?wv1)"
    using assms(3) by (simp add: vendorDestination_emit)
  have od: "openDestination env ?wv1 = (Inr (File ?d), ?w3)"
    using assms(4-6) by (simp add: openDestination_def Let_def)
  have ng: "newGenerator env name typeNames funcAndVarNames ?w3 = Inr g"
    using assms(7) fr newGenerator_files [of ?w3 "w\<lparr>files := (files w)(?d \<mapsto> [])\<rparr>"] by simp
  obtain g' where gg: "Generate (fmt_rest env) g pkg = (g', None)"
    by (cases "Generate (fmt_rest env) g pkg") (use Generate_None [of "fmt_rest env" g pkg] in auto)
  have es: "emitStub env g pkg (File ?d) licenseDirs ?w3 =
      (Inl (Fatal (''Failed to format generated source code: '' @ err @ [NL] @ buf g')),
       emit (EvProcess (buf g')) ?w3)"
    using assms(8) gg by (simp add: emitStub_def Output_def Let_def)
  have "createStubs env packageName typeNames funcAndVarNames licenseDirs w =
      (Inl (Fatal (''Failed to format generated source code: '' @ err @ [NL] @ buf g')),
       emit (EvProcess (buf g')) ?w3)"
    using assms(1,2) v od ng es by (simp add: createStubs_def Let_def)
  then show ?thesis using fr gg by simp
qed

theorem format_failure_leaves_empty_file_witness:
  "resolvePackageName demo_bad_format ''a/x'' = Inr ''a/x'' \<and>
   reflectMode demo_bad_format ''a/x'' [''U''] [''F''] = Inr \<lparr>Body = ''type U intfunc F() {}''\<rparr> \<and>
   vendorDestination demo_bad_format ''a/x'' demo_named = (Inr (), demo_named) \<and>
   destination demo_named = ''/proj/out/stub.go'' \<and>
   MkdirAll demo_bad_format (filepath_Dir demo_bad_format ''/proj/out/stub.go'') = None \<and>
   Create demo_bad_format ''/proj/out/stub.go'' = None \<and>
   files demo_named ''/proj/out/stub.go'' = Some ''package old'' \<and>
   (\<exists>src w'. createStubs demo_bad_format ''a/x'' [''U''] [''F''] [] demo_named =
        (Inl (Fatal (''Failed to format generated source code: 1:1: expected package'' @ [NL] @ src)), w') \<and>
      files w' ''/proj/out/stub.go'' = Some [] \<and> stdout w' = stdout demo_named)"
proof -
  let ?g = "new_generator\<lparr>srcPackage := ''a/x'', srcExports := ''U'', srcFunctions := ''F''\<rparr>"
  have h: "resolvePackageName demo_bad_format ''a/x'' = Inr ''a/x''"
    "reflectMode demo_bad_format ''a/x'' [''U''] [''F''] = Inr \<lparr>Body = ''type U intfunc F() {}''\<rparr>"
    "vendorDestination demo_bad_format ''a/x'' demo_named = (Inr (), demo_named)"
    "destination demo_named \<noteq> []"
    "MkdirAll demo_bad_format (filepath_Dir demo_bad_format (destination demo_named)) = None"
    "Create demo_bad_format (destination demo_named) = None"
    "newGenerator demo_bad_format ''a/x'' [''U''] [''F'']
       (demo_named\<lparr>files := (files demo_named)(destination demo_named \<mapsto> [])\<rparr>) = Inr ?g"
    "Process demo_bad_format (buf (fst (Generate (fmt_rest demo_bad_format) ?g \<lparr>Body = ''type U intfunc F() {}''\<rparr>)))
       = Inl ''1:1: expected package''"
    by (simp_all add: demo_bad_format_def demo_named_def demo_env_def demo_load_def demo_world_def
        resolvePackageName_def reflectMode_spec_def missing_def decl_of_def vendorDestination_def
        newGenerator_def)
  have d: "destination demo_named = ''/proj/out/stub.go''"
    "files demo_named ''/proj/out/stub.go'' = Some ''package old''"
    by (simp_all add: demo_named_def)
  from format_failure_leaves_empty_file [OF h, of "[]"]
  obtain w' where "createStubs demo_bad_format ''a/x'' [''U''] [''F''] [] demo_named =
           (Inl (Fatal (''Failed to format generated source code: '' @ ''1:1: expected package'' @ [NL] @
              buf (fst (Generate (fmt_rest demo_bad_format) ?g \<lparr>Body = ''type U intfunc F() {}''\<rparr>)))), w')"
    and "files w' = (files demo_named)(destination demo_named \<mapsto> [])"
    and "stdout w' = stdout demo_named"
    by blast
  then have "createStubs demo_bad_format ''a/x'' [''U''] [''F''] [] demo_named =
        (Inl (Fatal (''Failed to format generated source code: 1:1: expected package'' @ [NL] @
           buf (fst (Generate (fmt_rest demo_bad_format) ?g \<lparr>Body = ''type U intfunc F() {}''\<rparr>)))), w') \<and>
      files w' ''/proj/out/stub.go'' = Some [] \<and> stdout w' = stdout demo_named"
    using d by simp
  then have "\<exists>src w'. createStubs demo_bad_format ''a/x'' [''U''] [''F''] [] demo_named =
        (Inl (Fatal (''Failed to format generated source code: 1:1: expected package'' @ [NL] @ src)), w') \<and>
      files w' ''/proj/out/stub.go'' = Some [] \<and> stdout w' = stdout demo_named"
    by blast
  with h d show ?thesis by simp
qed

subsection \<open>The text that is generated\<close>

lemma p_buf: "p other g format args = g\<lparr>buf := buf g @ Sprintf other (format @ [NL]) args\<rparr>"
  by (simp add: p_def)

lemma foldl_p_lines:
  "foldl (\<lambda>g line. p other g ''// %s'' [line]) g ls =
     g\<lparr>buf := buf g @ concat (map (\<lambda>line. ''// '' @ line @ [NL]) ls)\<rparr>"
  by (induction ls arbitrary: g) (simp_all add: p_def Sprintf_def)

lemma Generate_buf:
  "buf (fst (Generate other g pkg)) =
     buf g @
     ''// Code generated by depstubber. DO NOT EDIT.'' @ [NL] @
     ''// This is a simple stub for '' @ srcPackage g @ '', strictly for use in testing.'' @ [NL] @
     [NL] @
     (if copyrightHeader g \<noteq> [] then
        ''// See the license below for information about the licensing of the original library.'' @ [NL] @
        [NL] @
        concat (map (\<lambda>line. ''// '' @ line @ [NL]) (Split (copyrightHeader g) NL)) @
        [NL]
      else
        ''// See the LICENSE file for information about the licensing of the original library.'' @ [NL]) @
     ''// Source: '' @ srcPackage g @ '' (exports: '' @ srcExports g @ ''; functions: '' @
        srcFunctions g @ '')'' @ [NL] @
     [NL] @ [NL] @
     Sprintf other (Body pkg @ [NL]) []"
  by (simp add: Generate_def Let_def foldl_p_lines) (simp add: p_def Sprintf_def)

lemma newGenerator_fields:
  assumes "newGenerator env name tys fvs w = Inr g"
  shows "buf g = []" and "srcPackage g = name" and "srcExports g = Join tys '',''"
    and "srcFunctions g = Join fvs '',''"
    and "copyrightHeader g =
           (if copyrightFile env = [] then []
            else (case files w (copyrightFile env) of None \<Rightarrow> [] | Some h \<Rightarrow> h))"
  using assms
  by (auto simp: newGenerator_def new_generator_def ReadFile_def Let_def
      split: if_splits option.splits)

lemma new_events_append [simp]: "trace w' = trace w @ es \<Longrightarrow> new_events w w' = es"
  by (simp add: new_events_def)

lemma emitStub_write:
  assumes "EvWrite dst' out \<in> set (new_events w (snd (emitStub env g pkg dst ds w)))"
  shows "dst' = dst \<and> Process env (buf (fst (Generate (fmt_rest env) g pkg))) = Inr out \<and>
         EvProcess (buf (fst (Generate (fmt_rest env) g pkg)))
           \<in> set (new_events w (snd (emitStub env g pkg dst ds w)))"
proof -
  obtain g' where gg: "Generate (fmt_rest env) g pkg = (g', None)"
    by (cases "Generate (fmt_rest env) g pkg") (use Generate_None [of "fmt_rest env" g pkg] in auto)
  show ?thesis
    using assms gg
    by (auto simp: emitStub_def Output_def Let_def new_events_def
        split: sum.splits option.splits)
qed

lemma openDestination_events:
  "\<exists>es. trace (snd (openDestination env w)) = trace w @ es \<and>
        (\<forall>e \<in> set es. (\<exists>d. e = EvMkdirAll d) \<or> (\<exists>d. e = EvCreate d))"
  by (auto simp: openDestination_def Let_def split: option.splits)

lemma createStubs_write:
  assumes "EvWrite dst out \<in> set (new_events w (snd (createStubs env pn tys fvs ds w)))"
  shows "\<exists>name pkg g wg. resolvePackageName env pn = Inr name \<and>
           reflectMode env name tys fvs = Inr pkg \<and>
           newGenerator env name tys fvs wg = Inr g \<and>
           Process env (buf (fst (Generate (fmt_rest env) g pkg))) = Inr out \<and>
           EvProcess (buf (fst (Generate (fmt_rest env) g pkg)))
             \<in> set (new_events w (snd (createStubs env pn tys fvs ds w)))"
proof (cases "resolvePackageName env pn")
  case (Inl a)
  then show ?thesis using assms by (simp add: createStubs_def new_events_def)
next
  case (Inr name)
  let ?w1 = "emit (EvReflectMode name tys fvs) w"
  show ?thesis
  proof (cases "reflectMode env name tys fvs")
    case (Inl err)
    then show ?thesis using assms Inr by (simp add: createStubs_def new_events_def)
  next
    case pk: (Inr pkg)
    obtain r2 w2 where v: "vendorDestination env name ?w1 = (r2, w2)" by force
    have t2: "trace w2 = trace w @ [EvReflectMode name tys fvs]"
      using v by (auto simp: vendorDestination_def split: sum.splits if_splits)
    obtain r3 w3 where od: "openDestination env w2 = (r3, w3)" by force
    obtain es where es: "trace w3 = trace w2 @ es"
      "\<forall>e \<in> set es. (\<exists>d. e = EvMkdirAll d) \<or> (\<exists>d. e = EvCreate d)"
      using openDestination_events [of env w2] od by auto
    have t3: "trace w3 = trace w @ EvReflectMode name tys fvs # es" using t2 es by simp
    have no: "EvWrite dst out \<notin> set (EvReflectMode name tys fvs # es)" using es(2) by auto
    show ?thesis
    proof (cases r2)
      case (Inl a)
      then show ?thesis using assms Inr pk v t2 by (simp add: createStubs_def Let_def)
    next
      case r2: (Inr u)
      show ?thesis
      proof (cases r3)
        case (Inl a)
        then show ?thesis using assms Inr pk v r2 od t3 no by (simp add: createStubs_def Let_def)
      next
        case r3: (Inr dst0)
        show ?thesis
        proof (cases "newGenerator env name tys fvs w3")
          case (Inl a)
          then show ?thesis using assms Inr pk v r2 od r3 t3 no by (simp add: createStubs_def Let_def)
        next
          case ng: (Inr g)
          let ?w4 = "snd (emitStub env g pkg dst0 ds w3)"
          have c: "createStubs env pn tys fvs ds w = emitStub env g pkg dst0 ds w3"
            using Inr pk v r2 od r3 ng by (simp add: createStubs_def Let_def)
          obtain es4 where es4: "trace ?w4 = trace w3 @ es4"
            using emitStub_extends [of w3 w3 env g pkg dst0 ds] by (auto simp: extends_def)
          have n3: "new_events w3 ?w4 = es4" using es4 by simp
          have n: "new_events w ?w4 = EvReflectMode name tys fvs # es @ es4"
            using es4 t3 by simp
          have "EvWrite dst out \<in> set es4" using assms c n no by auto
          then have "EvWrite dst out \<in> set (new_events w3 ?w4)" using n3 by simp
          from emitStub_write [OF this]
          have "Process env (buf (fst (Generate (fmt_rest env) g pkg))) = Inr out"
            and "EvProcess (buf (fst (Generate (fmt_rest env) g pkg))) \<in> set es4"
            using n3 by simp_all
          then show ?thesis using Inr pk ng c n by auto
        qed
      qed
    qed
  qed
qed

text \<open>
  C5. Whatever \<^verbatim>\<open>createStubs\<close> writes to its destination is the result of \<^verbatim>\<open>imports.Process\<close>
  on a text that begins with the comment \<^verbatim>\<open>// Code generated by depstubber. DO NOT EDIT.\<close>,
  goes on with the package path (resolved), the license block, and the line
  \<^verbatim>\<open>// Source: <package> (exports: <names>; functions: <names>)\<close> with the two requested lists
  joined by commas, and only then has the body that the extractor returned.
\<close>

theorem provenance_header:
  assumes "EvWrite dst out \<in>
     set (new_events w (snd (createStubs env packageName typeNames funcAndVarNames licenseDirs w)))"
  shows "\<exists>name pkg header src.
     resolvePackageName env packageName = Inr name \<and>
     reflectMode env name typeNames funcAndVarNames = Inr pkg \<and>
     Process env src = Inr out \<and>
     src =
       ''// Code generated by depstubber. DO NOT EDIT.'' @ [NL] @
       ''// This is a simple stub for '' @ name @ '', strictly for use in testing.'' @ [NL] @
       [NL] @
       (if header \<noteq> [] then
          ''// See the license below for information about the licensing of the original library.'' @ [NL] @
          [NL] @
          concat (map (\<lambda>line. ''// '' @ line @ [NL]) (Split header NL)) @
          [NL]
        else
          ''// See the LICENSE file for information about the licensing of the original library.'' @ [NL]) @
       ''// Source: '' @ name @ '' (exports: '' @ Join typeNames '','' @ ''; functions: '' @
          Join funcAndVarNames '','' @ '')'' @ [NL] @
       [NL] @ [NL] @
       Sprintf (fmt_rest env) (Body pkg @ [NL]) []"
proof -
  from createStubs_write [OF assms]
  obtain name pkg g wg where r: "resolvePackageName env packageName = Inr name"
    and pk: "reflectMode env name typeNames funcAndVarNames = Inr pkg"
    and ng: "newGenerator env name typeNames funcAndVarNames wg = Inr g"
    and pr: "Process env (buf (fst (Generate (fmt_rest env) g pkg))) = Inr out"
    by blast
  note f = newGenerator_fields [OF ng]
  have "buf (fst (Generate (fmt_rest env) g pkg)) =
       ''// Code generated by depstubber. DO NOT EDIT.'' @ [NL] @
       ''// This is a simple stub for '' @ name @ '', strictly for use in testing.'' @ [NL] @
       [NL] @
       (if copyrightHeader g \<noteq> [] then
          ''// See the license below for information about the licensing of the original library.'' @ [NL] @
          [NL] @
          concat (map (\<lambda>line. ''// '' @ line @ [NL]) (Split (copyrightHeader g) NL)) @
          [NL]
        else
          ''// See the LICENSE file for information about the licensing of the original library.'' @ [NL]) @
       ''// Source: '' @ name @ '' (exports: '' @ Join typeNames '','' @ ''; functions: '' @
          Join funcAndVarNames '','' @ '')'' @ [NL] @
       [NL] @ [NL] @
       Sprintf (fmt_rest env) (Body pkg @ [NL]) []"
    unfolding Generate_buf f(1-4) by simp
  with r pk pr show ?thesis by blast
qed

theorem provenance_header_witness:
  "EvWrite Stdout
     (''// Code generated by depstubber. DO NOT EDIT.'' @ [NL] @
      ''// This is a simple stub for a/x, strictly for use in testing.'' @ [NL] @
      [NL] @
      ''// See the LICENSE file for information about the licensing of the original library.'' @ [NL] @
      ''// Source: a/x (exports: U; functions: F)'' @ [NL] @
      [NL] @ [NL] @
      ''type U intfunc F() {}'' @ [NL])
     \<in> set (new_events demo_world (snd (createStubs demo_env ''a/x'' [''U''] [''F''] [] demo_world))) \<and>
   (\<exists>src rest. Process demo_env src =
      Inr (''// Code generated by depstubber. DO NOT EDIT.'' @ [NL] @
      ''// This is a simple stub for a/x, strictly for use in testing.'' @ [NL] @
      [NL] @
      ''// See the LICENSE file for information about the licensing of the original library.'' @ [NL] @
      ''// Source: a/x (exports: U; functions: F)'' @ [NL] @
      [NL] @ [NL] @
      ''type U intfunc F() {}'' @ [NL]) \<and>
      src = ''// Code generated by depstubber. DO NOT EDIT.'' @ [NL] @ rest)"
proof -
  let ?out = "''// Code generated by depstubber. DO NOT EDIT.'' @ [NL] @
      ''// This is a simple stub for a/x, strictly for use in testing.'' @ [NL] @
      [NL] @
      ''// See the LICENSE file for information about the licensing of the original library.'' @ [NL] @
      ''// Source: a/x (exports: U; functions: F)'' @ [NL] @
      [NL] @ [NL] @
      ''type U intfunc F() {}'' @ [NL]"
  have w: "EvWrite Stdout ?out
     \<in> set (new_events demo_world (snd (createStubs demo_env ''a/x'' [''U''] [''F''] [] demo_world)))"
    by (simp add: demo_defs run_defs)
  from provenance_header [OF w]
  obtain src rest where "Process demo_env src = Inr ?out"
    and "src = ''// Code generated by depstubber. DO NOT EDIT.'' @ [NL] @ rest"
    by blast
  then have "\<exists>src rest. Process demo_env src = Inr ?out \<and>
      src = ''// Code generated by depstubber. DO NOT EDIT.'' @ [NL] @ rest"
    by blast
  with w show ?thesis by blast
qed

subsection \<open>Generating twice\<close>

lemma reflectMode_spec_load_order:
  assumes "load name = Some P" and "load' name = Some P'"
    and "map_of (decls P') = map_of (decls P)"
  shows "reflectMode_spec load' name tys fvs = reflectMode_spec load name tys fvs"
proof -
  have "missing P' = missing P" using assms(3) by (simp add: missing_def fun_eq_iff)
  moreover have "decl_of P' = decl_of P" using assms(3) by (simp add: decl_of_def fun_eq_iff)
  ultimately show ?thesis using assms(1,2)
    by (simp add: reflectMode_spec_def cong: option.case_cong)
qed

lemma createStubs_ok_steps:
  assumes "createStubs env pn tys fvs ds w = (Inr (), w1)"
    and "resolvePackageName env pn = Inr name"
  obtains pkg wv dst wo g where "reflectMode env name tys fvs = Inr pkg"
    and "vendorDestination env name (emit (EvReflectMode name tys fvs) w) = (Inr (), wv)"
    and "openDestination env wv = (Inr dst, wo)"
    and "newGenerator env name tys fvs wo = Inr g"
    and "emitStub env g pkg dst ds wo = (Inr (), w1)"
  using assms by (auto simp: createStubs_def Let_def split: sum.splits prod.splits)

lemma vendorDestination_ok:
  assumes "vendorDestination env name w = (Inr (), wv)"
  shows "wv = w\<lparr>destination := destination wv\<rparr>"
    and "vendorDestination env name x =
           (Inr (), x\<lparr>destination := (if vendor env then destination wv else destination x)\<rparr>)"
  using assms by (auto simp: vendorDestination_def split: sum.splits if_splits)

lemma openDestination_ok:
  assumes "openDestination env w = (Inr dst, wo)"
  shows "destination w = [] \<and> dst = Stdout \<and> wo = w \<or>
         destination w \<noteq> [] \<and> dst = File (destination w) \<and>
         MkdirAll env (filepath_Dir env (destination w)) = None \<and>
         Create env (destination w) = None \<and>
         wo = (emit (EvCreate (destination w))
                 (emit (EvMkdirAll (filepath_Dir env (destination w))) w))\<lparr>files :=
                   (files w)(destination w \<mapsto> [])\<rparr>"
  using assms by (auto simp: openDestination_def Let_def split: option.splits if_splits)

lemma emitStub_ok:
  assumes "emitStub env g pkg dst ds w = (Inr (), w1)"
  obtains out where "Process env (buf (fst (Generate (fmt_rest env) g pkg))) = Inr out"
    and "Write env dst out = None" and "copyLicenses env ds = None"
    and "w1 = emit (EvCopyLicenses ds) (written dst out (emit (EvWrite dst out)
                (emit (EvProcess (buf (fst (Generate (fmt_rest env) g pkg)))) w)))"
proof -
  obtain g' where gg: "Generate (fmt_rest env) g pkg = (g', None)"
    by (cases "Generate (fmt_rest env) g pkg") (use Generate_None [of "fmt_rest env" g pkg] in auto)
  show ?thesis
    using assms gg that
    by (auto simp: emitStub_def Output_def Let_def split: sum.splits option.splits)
qed

lemma emitStub_run:
  assumes "Process env (buf (fst (Generate (fmt_rest env) g pkg))) = Inr out"
    and "Write env dst out = None" and "copyLicenses env ds = None"
  shows "emitStub env g pkg dst ds w =
     (Inr (), emit (EvCopyLicenses ds) (written dst out (emit (EvWrite dst out)
                (emit (EvProcess (buf (fst (Generate (fmt_rest env) g pkg)))) w))))"
proof -
  obtain g' where gg: "Generate (fmt_rest env) g pkg = (g', None)"
    by (cases "Generate (fmt_rest env) g pkg") (use Generate_None [of "fmt_rest env" g pkg] in auto)
  show ?thesis
    using assms gg by (simp add: emitStub_def Output_def Let_def)
qed

lemma reflectMode_update_blocks [simp]:
  "resolvePackageName (env\<lparr>reflectMode := r'\<rparr>) = resolvePackageName env"
  "vendorDestination (env\<lparr>reflectMode := r'\<rparr>) = vendorDestination env"
  "openDestination (env\<lparr>reflectMode := r'\<rparr>) = openDestination env"
  "newGenerator (env\<lparr>reflectMode := r'\<rparr>) = newGenerator env"
  "emitStub (env\<lparr>reflectMode := r'\<rparr>) = emitStub env"
  by (simp_all add: fun_eq_iff resolvePackageName_def vendorDestination_def openDestination_def
      newGenerator_def ReadFile_def emitStub_def Output_def Let_def
      cong: sum.case_cong option.case_cong prod.case_cong if_cong)

lemma createStubs_run:
  assumes "resolvePackageName env pn = Inr name"
    and "reflectMode env name tys fvs = Inr pkg"
    and "vendorDestination env name (emit (EvReflectMode name tys fvs) w) = (Inr (), wv)"
    and "openDestination env wv = (Inr dst, wo)"
    and "newGenerator env name tys fvs wo = Inr g"
  shows "createStubs env pn tys fvs ds w = emitStub env g pkg dst ds wo"
  using assms by (simp add: createStubs_def Let_def)

lemma new_stdout_append [simp]: "stdout w' = stdout w @ s \<Longrightarrow> new_stdout w w' = s"
  by (simp add: new_stdout_def)

lemma written_files:
  "files (written dst out w) =
     (case dst of Stdout \<Rightarrow> files w
      | File name \<Rightarrow> (files w)(name \<mapsto> (case files w name of None \<Rightarrow> [] | Some old \<Rightarrow> old) @ out))"
  by (simp add: written_def split: dest.splits)

lemma written_stdout:
  "stdout (written dst out w) = (case dst of Stdout \<Rightarrow> stdout w @ out | File name \<Rightarrow> stdout w)"
  by (simp add: written_def split: dest.splits)

lemma createStubs_twice:
  assumes run: "createStubs env pn tys fvs ds w = (Inr (), w1)"
    and res: "resolvePackageName env pn = Inr name"
    and same: "r' name tys fvs = reflectMode env name tys fvs"
  shows "\<exists>w2. createStubs (env\<lparr>reflectMode := r'\<rparr>) pn tys fvs ds w1 = (Inr (), w2) \<and>
           files w2 = files w1 \<and> destination w2 = destination w1 \<and>
           new_events w1 w2 = new_events w w1 \<and> new_stdout w1 w2 = new_stdout w w1"
proof -
  let ?env' = "env\<lparr>reflectMode := r'\<rparr>"
  let ?e1 = "EvReflectMode name tys fvs"
  from createStubs_ok_steps [OF run res]
  obtain pkg wv dst wo g where pk: "reflectMode env name tys fvs = Inr pkg"
    and v: "vendorDestination env name (emit ?e1 w) = (Inr (), wv)"
    and od: "openDestination env wv = (Inr dst, wo)"
    and ng: "newGenerator env name tys fvs wo = Inr g"
    and es: "emitStub env g pkg dst ds wo = (Inr (), w1)"
    by blast
  let ?src = "buf (fst (Generate (fmt_rest env) g pkg))"
  from emitStub_ok [OF es]
  obtain out where pr: "Process env ?src = Inr out"
    and wr: "Write env dst out = None" and cl: "copyLicenses env ds = None"
    and w1: "w1 = emit (EvCopyLicenses ds) (written dst out (emit (EvWrite dst out)
                (emit (EvProcess ?src) wo)))"
    by blast
  let ?d = "destination wv"
  have wv: "files wv = files w" "stdout wv = stdout w" "trace wv = trace w @ [?e1]"
    using vendorDestination_frame [OF v] by simp_all
  have dwo: "destination wo = ?d"
    using openDestination_ok [OF od] by auto
  have dw1: "destination w1 = ?d"
    using w1 dwo by simp
  let ?wv2 = "(emit ?e1 w1)\<lparr>destination := ?d\<rparr>"
  have v2: "vendorDestination env name (emit ?e1 w1) = (Inr (), ?wv2)"
    using vendorDestination_ok(2) [OF v, of "emit ?e1 w1"] dw1 by simp
  have pk2: "reflectMode ?env' name tys fvs = Inr pkg"
    using same pk by simp
  have fr: "fmt_rest ?env' = fmt_rest env" by simp
  from openDestination_ok [OF od]
  show ?thesis
  proof (elim disjE conjE)
    assume d: "destination wv = []" and dst: "dst = Stdout" and wo: "wo = wv"
    have od2: "openDestination env ?wv2 = (Inr Stdout, ?wv2)"
      using d by (simp add: openDestination_def)
    have f2: "files ?wv2 = files wo"
      using w1 dst by (simp add: written_files)
    have ng2: "newGenerator env name tys fvs ?wv2 = Inr g"
      using ng newGenerator_files [OF f2] by simp
    let ?w2 = "emit (EvCopyLicenses ds) (written Stdout out (emit (EvWrite Stdout out)
                (emit (EvProcess ?src) ?wv2)))"
    have c2: "createStubs ?env' pn tys fvs ds w1 = (Inr (), ?w2)"
      using createStubs_run [of ?env' pn name tys fvs pkg w1 ?wv2 Stdout ?wv2 g ds]
        res pk2 v2 od2 ng2 emitStub_run [OF pr _ cl, of Stdout ?wv2] wr dst
      by simp
    have t1: "trace w1 = trace w @ [?e1, EvProcess ?src, EvWrite Stdout out, EvCopyLicenses ds]"
      using w1 wo wv dst by simp
    have s1: "stdout w1 = stdout w @ out"
      using w1 wo wv dst by (simp add: written_stdout)
    have "files ?w2 = files w1" by (simp add: written_files)
    moreover have "destination ?w2 = destination w1" using dw1 by simp
    moreover have "new_events w1 ?w2 = new_events w w1"
      using t1 by simp
    moreover have "new_stdout w1 ?w2 = new_stdout w w1"
      using s1 by (simp add: written_stdout)
    ultimately show ?thesis using c2 by blast
  next
    assume d: "destination wv \<noteq> []" and dst: "dst = File (destination wv)"
      and mk: "MkdirAll env (filepath_Dir env (destination wv)) = None"
      and cr: "Create env (destination wv) = None"
      and wo: "wo = (emit (EvCreate ?d) (emit (EvMkdirAll (filepath_Dir env ?d)) wv))\<lparr>files :=
                   (files wv)(?d \<mapsto> [])\<rparr>"
    let ?wo2 = "(emit (EvCreate ?d) (emit (EvMkdirAll (filepath_Dir env ?d)) ?wv2))\<lparr>files :=
                   (files ?wv2)(?d \<mapsto> [])\<rparr>"
    have od2: "openDestination env ?wv2 = (Inr (File ?d), ?wo2)"
      using d mk cr by (simp add: openDestination_def Let_def)
    have fw1: "files w1 = (files w)(?d \<mapsto> out)"
      using w1 wo wv dst by (simp add: written_files)
    have f2: "files ?wo2 = files wo"
      using fw1 wo wv by simp
    have ng2: "newGenerator env name tys fvs ?wo2 = Inr g"
      using ng newGenerator_files [OF f2] by simp
    let ?w2 = "emit (EvCopyLicenses ds) (written (File ?d) out (emit (EvWrite (File ?d) out)
                (emit (EvProcess ?src) ?wo2)))"
    have c2: "createStubs ?env' pn tys fvs ds w1 = (Inr (), ?w2)"
      using createStubs_run [of ?env' pn name tys fvs pkg w1 ?wv2 "File ?d" ?wo2 g ds]
        res pk2 v2 od2 ng2 emitStub_run [OF pr _ cl, of "File ?d" ?wo2] wr dst
      by simp
    have t1: "trace w1 = trace w @ [?e1, EvMkdirAll (filepath_Dir env ?d), EvCreate ?d,
        EvProcess ?src, EvWrite (File ?d) out, EvCopyLicenses ds]"
      using w1 wo wv dst by simp
    have s1: "stdout w1 = stdout w @ []"
      using w1 wo wv dst by (simp add: written_stdout)
    have "files ?w2 = files w1" using fw1 by (simp add: written_files)
    moreover have "destination ?w2 = destination w1" using dw1 by simp
    moreover have "new_events w1 ?w2 = new_events w w1"
      using t1 by simp
    moreover have "new_stdout w1 ?w2 = new_stdout w w1"
      using s1 by (simp add: written_stdout)
    ultimately show ?thesis using c2 by blast
  qed
qed

text \<open>
  C1. With the extractor of the specification: after a run of \<^verbatim>\<open>createStubs\<close> that ends
  normally, a second run for the same package and the same two lists of names, on the
  same package content (the same symbols with the same declarations, in whatever order
  the package is loaded this time), ends normally too, makes the same calls with the
  same arguments (the same text is formatted, the same bytes are written to the same
  destination), appends the same bytes to standard output and leaves every file as
  the first run left it. The body that is generated lists the declarations in the
  order of the request: the type names, then the function and variable names.
\<close>

theorem regeneration_is_byte_identical:
  assumes "createStubs env packageName typeNames funcAndVarNames licenseDirs w = (Inr (), w1)"
    and "resolvePackageName env packageName = Inr name"
    and "reflectMode env = reflectMode_spec load"
    and "load name = Some P" and "load' name = Some P'"
    and "map_of (decls P') = map_of (decls P)"
  shows "\<exists>w2. createStubs (env\<lparr>reflectMode := reflectMode_spec load'\<rparr>)
                 packageName typeNames funcAndVarNames licenseDirs w1 = (Inr (), w2) \<and>
           files w2 = files w1 \<and>
           new_events w1 w2 = new_events w w1 \<and>
           new_stdout w1 w2 = new_stdout w w1 \<and>
           reflectMode env name typeNames funcAndVarNames =
             Inr \<lparr>Body = concat (map (decl_of P) (typeNames @ funcAndVarNames))\<rparr>"
proof -
  have same: "reflectMode_spec load' name typeNames funcAndVarNames =
              reflectMode env name typeNames funcAndVarNames"
    using reflectMode_spec_load_order [of load name P load' P' typeNames funcAndVarNames]
      assms(3-6) by simp
  from createStubs_ok_steps [OF assms(1,2)]
  obtain pkg where "reflectMode env name typeNames funcAndVarNames = Inr pkg" by blast
  then have body: "reflectMode env name typeNames funcAndVarNames =
             Inr \<lparr>Body = concat (map (decl_of P) (typeNames @ funcAndVarNames))\<rparr>"
    using assms(3,4) by (auto simp: reflectMode_spec_def split: option.splits)
  from createStubs_twice [of env packageName typeNames funcAndVarNames licenseDirs w w1 name
      "reflectMode_spec load'", OF assms(1,2) same] body
  show ?thesis by blast
qed

theorem regeneration_is_byte_identical_witness:
  "resolvePackageName demo_env ''a/x'' = Inr ''a/x'' \<and>
   reflectMode demo_env = reflectMode_spec demo_load \<and>
   demo_load ''a/x'' = Some \<lparr>decls = [(''F'', ''func F() {}''), (''U'', ''type U int'')]\<rparr> \<and>
   demo_reload ''a/x'' = Some \<lparr>decls = [(''U'', ''type U int''), (''F'', ''func F() {}'')]\<rparr> \<and>
   map_of [(''U'', ''type U int''), (''F'', ''func F() {}'')] =
     map_of [(''F'', ''func F() {}''), (''U'', ''type U int'')] \<and>
   (\<exists>w1 w2.
      createStubs demo_env ''a/x'' [''U''] [''F''] [] demo_world = (Inr (), w1) \<and>
      createStubs (demo_env\<lparr>reflectMode := reflectMode_spec demo_reload\<rparr>)
        ''a/x'' [''U''] [''F''] [] w1 = (Inr (), w2) \<and>
      files w2 = files w1 \<and>
      new_events w1 w2 = new_events demo_world w1 \<and>
      new_stdout w1 w2 = new_stdout demo_world w1)"
proof -
  let ?P = "\<lparr>decls = [(''F'', ''func F() {}''), (''U'', ''type U int'')]\<rparr>"
  let ?P' = "\<lparr>decls = [(''U'', ''type U int''), (''F'', ''func F() {}'')]\<rparr>"
  have "fst (createStubs demo_env ''a/x'' [''U''] [''F''] [] demo_world) = Inr ()"
    by (simp add: demo_defs run_defs)
  then obtain w1 where w1: "createStubs demo_env ''a/x'' [''U''] [''F''] [] demo_world = (Inr (), w1)"
    by (cases "createStubs demo_env ''a/x'' [''U''] [''F''] [] demo_world") auto
  have h: "resolvePackageName demo_env ''a/x'' = Inr ''a/x''"
    "reflectMode demo_env = reflectMode_spec demo_load"
    "demo_load ''a/x'' = Some ?P" "demo_reload ''a/x'' = Some ?P'"
    by (simp_all add: demo_env_def demo_load_def demo_reload_def resolvePackageName_def)
  have m: "map_of (decls ?P') = map_of (decls ?P)"
    by (auto simp: fun_eq_iff)
  from regeneration_is_byte_identical [of demo_env "''a/x''" "[''U'']" "[''F'']" "[]" demo_world w1
      "''a/x''" demo_load ?P demo_reload ?P', OF w1 h m]
  obtain w2 where "createStubs (demo_env\<lparr>reflectMode := reflectMode_spec demo_reload\<rparr>)
        ''a/x'' [''U''] [''F''] [] w1 = (Inr (), w2)"
    "files w2 = files w1" "new_events w1 w2 = new_events demo_world w1"
    "new_stdout w1 w2 = new_stdout demo_world w1"
    by blast
  with w1 have "\<exists>w1 w2.
      createStubs demo_env ''a/x'' [''U''] [''F''] [] demo_world = (Inr (), w1) \<and>
      createStubs (demo_env\<lparr>reflectMode := reflectMode_spec demo_reload\<rparr>)
        ''a/x'' [''U''] [''F''] [] w1 = (Inr (), w2) \<and>
      files w2 = files w1 \<and>
      new_events w1 w2 = new_events demo_world w1 \<and>
      new_stdout w1 w2 = new_stdout demo_world w1"
    by blast
  then show ?thesis using h m by simp
qed

end
